theory Spec2Isabelle
  imports Complex_Main
begin

section \<open>Token keys (stores/tokens: makeTokenKey)\<close>

text \<open>
  A JavaScript string is modelled as a \<open>string\<close>, the list of the bytes of its UTF-8
  encoding; the separator \<open>-\<close> is one byte and is not part of any other character.

  \<open>String.prototype.toLowerCase\<close> is a builtin of the JavaScript engine, not a function of
  this repository: it lowers every cased character of Unicode.  \<open>makeTokenKey\<close> takes it as
  the parameter \<open>toLowerCase\<close>.  \<open>lowers_around_dash\<close> states what the properties below use
  of it: \<open>-\<close> is neither a cased nor a case-ignorable character, so a text is lowered on
  each side of a \<open>-\<close> by itself, and lower-casing neither creates nor removes a \<open>-\<close>.
\<close>

definition lowers_around_dash :: "(string \<Rightarrow> string) \<Rightarrow> bool" where
  "lowers_around_dash toLowerCase \<longleftrightarrow>
     (\<forall>a b. toLowerCase (a @ ''-'' @ b) = toLowerCase a @ ''-'' @ toLowerCase b) \<and>
     (\<forall>a. CHR ''-'' \<in> set (toLowerCase a) \<longleftrightarrow> CHR ''-'' \<in> set a)"

text \<open>
  On ASCII text \<open>toLowerCase\<close> lowers the letters \<open>A\<close>..\<open>Z\<close> and leaves every other
  character as it is; \<open>toLowerCase_ascii\<close> is used to compute keys of ASCII tuples.
\<close>

definition toLowerCase_ascii_char :: "char \<Rightarrow> char" where
  "toLowerCase_ascii_char c =
     (let n = (of_char c :: nat) in if 65 \<le> n \<and> n \<le> 90 then char_of (n + 32) else c)"

definition toLowerCase_ascii :: "string \<Rightarrow> string" where
  "toLowerCase_ascii s = map toLowerCase_ascii_char s"

text \<open>\<open>Array.prototype.join\<close> on an array of strings.\<close>

fun join :: "string list \<Rightarrow> string \<Rightarrow> string" where
  "join [] sep = []"
| "join [x] sep = x"
| "join (x # y # ys) sep = x @ sep @ join (y # ys) sep"

text \<open>
  \<open>TokenKeyParams\<close>: each field holds the text that \<open>String(...)\<close> yields for it.
  \<open>chainId\<close> is a \<open>Checksum256\<close>, printed as 64 hexadecimal digits; \<open>contract\<close> is the
  name of the token's account, built from the characters \<open>a\<close>..\<open>z\<close>, \<open>1\<close>..\<open>5\<close> and \<open>.\<close>;
  \<open>name\<close> is a symbol name or the display name of the token metadata, any text.
\<close>

record TokenKeyParams =
  chainId :: string
  contract :: string
  name :: string

definition makeTokenKey :: "(string \<Rightarrow> string) \<Rightarrow> TokenKeyParams \<Rightarrow> string" where
  "makeTokenKey toLowerCase token =
     toLowerCase (join [chainId token, contract token, name token] ''-'')"

text \<open>
  Two parameter tuples that differ at most in the case of their letters: after lower-casing,
  the three components agree.
\<close>

definition same_up_to_case ::
  "(string \<Rightarrow> string) \<Rightarrow> TokenKeyParams \<Rightarrow> TokenKeyParams \<Rightarrow> bool" where
  "same_up_to_case toLowerCase t1 t2 \<longleftrightarrow>
     toLowerCase (chainId t1) = toLowerCase (chainId t2) \<and>
     toLowerCase (contract t1) = toLowerCase (contract t2) \<and>
     toLowerCase (name t1) = toLowerCase (name t2)"


section \<open>Account cache (stores/account-provider)\<close>

text \<open>
  The account snapshot is opaque to the cache except for the fields that \<open>loadAccount\<close> and
  \<open>storeAccount\<close> touch: \<open>account_name\<close> and the two vote weights inside \<open>voter_info\<close>.
  An absent field (\<open>undefined\<close>) is \<open>None\<close>; all remaining fields are carried along in
  \<open>voter_rest\<close> and \<open>account_rest\<close>.  The field \<open>voter_info\<close> of the account is called
  \<open>voter\<close> here.
\<close>

record voter_info =
  last_vote_weight :: "string option"
  proxied_vote_weight :: "string option"
  voter_rest :: string

record AccountObject =
  account_name :: string
  voter :: "voter_info option"
  account_rest :: string

text \<open>The interface \<open>AccountResponse\<close>.\<close>

record AccountResponse =
  account :: "AccountObject option"
  stale :: bool
  error :: "string option"

text \<open>
  A row of the \<open>account-cache\<close> object store; \<open>updated\<close> is the stored date in ms.  Rows are
  written by \<open>storeAccount\<close> only, so a row always has its \<open>account\<close>.  The store itself
  (\<open>dbPromise\<close>, \<open>get\<close>, \<open>put\<close>) is a map from keys to rows and does not fail.
\<close>

record cache_row =
  row_account :: AccountObject
  updated :: int

type_synonym account_db = "string \<rightharpoonup> cache_row"

text \<open>How old a cached account is before we update it (ms).\<close>

definition maxAge :: int where
  "maxAge = 60 * 1000"

definition accountKey :: "string \<Rightarrow> string \<Rightarrow> string" where
  "accountKey nm chain = chain @ ''-'' @ nm"

text \<open>
  \<open>Serializer.objectify\<close> and \<open>API.v1.AccountObject.from\<close> belong to the anchor-link
  library.  \<open>objectify\<close> writes a typed account as a plain object, every number as its
  text; \<open>from\<close> reads such an object back into the typed account.  The store only holds
  rows that \<open>storeAccount\<close> wrote with \<open>objectify\<close>, and on those \<open>from\<close> returns the account
  that was written; both are the identity on the structural view of an account used here.
  (On other objects \<open>from\<close> normalises the text of a number, and it throws when a required
  field is missing; such rows are outside the model.)
\<close>

definition objectify :: "AccountObject \<Rightarrow> AccountObject" where
  "objectify a = a"

definition AccountObject_from :: "AccountObject \<Rightarrow> AccountObject" where
  "AccountObject_from a = a"

text \<open>JavaScript truthiness of an optional string: \<open>undefined\<close> and \<open>''\<close> are falsy.\<close>

definition truthy_str :: "string option \<Rightarrow> bool" where
  "truthy_str v = (case v of None \<Rightarrow> False | Some s \<Rightarrow> s \<noteq> [])"

text \<open>
  The in-memory patch of the cached row (lines 114 to 121 of account-provider.ts): a
  present \<open>voter_info\<close> whose vote weights are falsy gets them set to \<open>'0'\<close>.
\<close>

definition patch_voter_info :: "voter_info \<Rightarrow> voter_info" where
  "patch_voter_info vi =
     (let vi1 = (if \<not> truthy_str (last_vote_weight vi)
                 then vi\<lparr>last_vote_weight := Some ''0''\<rparr> else vi)
      in if \<not> truthy_str (proxied_vote_weight vi1)
         then vi1\<lparr>proxied_vote_weight := Some ''0''\<rparr> else vi1)"

definition patch_account :: "AccountObject \<Rightarrow> AccountObject" where
  "patch_account a =
     (case voter a of None \<Rightarrow> a | Some vi \<Rightarrow> a\<lparr>voter := Some (patch_voter_info vi)\<rparr>)"

text \<open>
  An account as the typed \<open>API.v1.AccountObject\<close> holds it: a \<open>voter_info\<close>, when there is
  one, has both vote weights (they are required fields of the type), and \<open>objectify\<close>
  writes each as the non-empty text of a number.  These are the accounts that \<open>get_account\<close>
  returns and that \<open>storeAccount\<close> is given.
\<close>

definition typed_account :: "AccountObject \<Rightarrow> bool" where
  "typed_account a \<longleftrightarrow>
     (case voter a of
        None \<Rightarrow> True
      | Some vi \<Rightarrow> truthy_str (last_vote_weight vi) \<and> truthy_str (proxied_vote_weight vi))"

text \<open>
  \<open>storeAccount\<close>: one \<open>put\<close> into the store under the key of the account's own name;
  \<open>now\<close> is the value of \<open>new Date()\<close> at that moment.
\<close>

definition stored_row :: "AccountObject \<Rightarrow> int \<Rightarrow> cache_row" where
  "stored_row acc now = \<lparr>row_account = objectify acc, updated = now\<rparr>"

definition storeAccount :: "AccountObject \<Rightarrow> string \<Rightarrow> int \<Rightarrow> account_db \<Rightarrow> account_db" where
  "storeAccount acc chain now db = db(accountKey (account_name acc) chain \<mapsto> stored_row acc now)"

text \<open>
  What an observer sees of one \<open>loadAccount\<close> call, in order: invocations of the callback
  \<open>set\<close>, the request \<open>get_account\<close> sent to the chain API, and writes to the store.
\<close>

datatype event =
    Callback AccountResponse
  | Fetch string string
  | Put string cache_row

text \<open>How the promise returned by \<open>loadAccount\<close> settles.\<close>

datatype outcome = Resolved | Rejected

text \<open>
  The surroundings of one call: the clock read by \<open>Date.now()\<close> in \<open>loadAccount\<close>, the clock
  read by \<open>new Date()\<close> in \<open>storeAccount\<close>, and the chain API (\<open>None\<close>: the request is
  rejected).
\<close>

record environment =
  now_load :: int
  now_store :: int
  get_account :: "string \<Rightarrow> string \<Rightarrow> AccountObject option"

text \<open>A chain API that rejects every request.\<close>

definition api_down :: "string \<Rightarrow> string \<Rightarrow> AccountObject option" where
  "api_down chain nm = None"

record load_result =
  trace :: "event list"
  db_after :: account_db
  settled :: outcome

text \<open>The response built from a cached row at time \<open>now\<close> (lines 110 to 122).\<close>

definition cached_response :: "cache_row \<Rightarrow> int \<Rightarrow> AccountResponse" where
  "cached_response row now =
     (let age = now - updated row;
          stale = age > maxAge
      in \<lparr>account = Some (AccountObject_from (patch_account (row_account row))),
          stale = stale, error = None\<rparr>)"

definition loadAccount ::
  "string \<Rightarrow> string \<Rightarrow> bool \<Rightarrow> environment \<Rightarrow> account_db \<Rightarrow> load_result" where
  "loadAccount nm chain refresh env db =
     (let key = accountKey nm chain;
          row = db key;
          (is_stale, first) =
            (case row of
               None \<Rightarrow> (True, [])
             | Some r \<Rightarrow>
                 (let response = cached_response r (now_load env)
                  in (stale response, [Callback response])))
      in if is_stale \<or> refresh then
           (case get_account env chain nm of
              None \<Rightarrow> \<lparr>trace = first @ [Fetch chain nm], db_after = db, settled = Rejected\<rparr>
            | Some acc \<Rightarrow>
                \<lparr>trace = first @
                   [Fetch chain nm,
                    Put (accountKey (account_name acc) chain) (stored_row acc (now_store env)),
                    Callback \<lparr>account = Some acc, stale = False, error = None\<rparr>],
                 db_after = storeAccount acc chain (now_store env) db,
                 settled = Resolved\<rparr>)
         else \<lparr>trace = first, db_after = db, settled = Resolved\<rparr>)"

text \<open>The callback invocations of a trace, and whether a trace contains a network request.\<close>

fun callbacks :: "event list \<Rightarrow> AccountResponse list" where
  "callbacks [] = []"
| "callbacks (Callback r # es) = r # callbacks es"
| "callbacks (e # es) = callbacks es"

fun fetches :: "event list \<Rightarrow> nat" where
  "fetches [] = 0"
| "fetches (Fetch c n # es) = Suc (fetches es)"
| "fetches (e # es) = fetches es"


section \<open>Resource pricing (PowerUp and REX)\<close>

text \<open>
  A JavaScript \<open>number\<close> is a double.  A number is truthy when it is not zero.

  The PowerUp functions call \<open>Math.pow\<close> and \<open>Math.exp\<close>, whose results the language leaves
  to the engine; there a number is modelled as a real number and arithmetic is exact, so
  the model gives the value that the double computation approximates.  The values
  \<open>Infinity\<close> and \<open>NaN\<close> are not part of the model: a division by zero in the source
  (\<open>weight\<close>, \<open>exponent\<close> or \<open>decay_secs\<close> of 0, a shift ratio of 100) is excluded by the
  hypotheses of the properties that depend on it.

  \<open>rexPrice\<close> only divides and multiplies, operations that IEEE-754 defines exactly; it is
  modelled with the rounding of doubles (\<open>binary64\<close> below).
\<close>

text \<open>
  An \<open>Asset\<close>: an integer amount of indivisible units and the symbol (precision and name).
  \<open>asset_value\<close> is the getter \<open>.value\<close>, the amount as a decimal number.
\<close>

record Asset =
  units :: int
  precision :: nat
  symbol_name :: string

definition asset_value :: "Asset \<Rightarrow> real" where
  "asset_value a = real_of_int (units a) / 10 ^ precision a"

definition Asset_fromUnits :: "int \<Rightarrow> nat \<Rightarrow> string \<Rightarrow> Asset" where
  "Asset_fromUnits n p nm = \<lparr>units = n, precision = p, symbol_name = nm\<rparr>"

text \<open>
  \<open>Asset.fromUnits\<close> takes the number of units as an \<open>Int64\<close>: it returns the asset when the
  number lies in the range of \<open>Int64\<close> and throws otherwise.  \<open>Asset_fromUnits\<close> is the asset
  it returns; \<open>fits_Int64\<close> says that it returns one.
\<close>

definition fits_Int64 :: "int \<Rightarrow> bool" where
  "fits_Int64 n \<longleftrightarrow> - (2 ^ 63) \<le> n \<and> n < 2 ^ 63"

text \<open>
  The fields of the \<open>cpu\<close> resource of the on-chain PowerUp state that the pricing code
  reads (the type itself is declared in abi-types, outside these sources).  Integer fields
  are 64-bit or 32-bit chain integers; \<open>exponent\<close> is a float64; timestamps are seconds.
\<close>

record PowerUpStateResource =
  weight :: int
  weight_ratio :: int
  exponent :: real
  decay_secs :: int
  min_price :: Asset
  max_price :: Asset
  utilization :: int
  adjusted_utilization :: int
  utilization_timestamp :: int

record PowerUpState =
  cpu :: PowerUpStateResource

text \<open>The REX pool: the fields read by \<open>rexPrice\<close> and \<open>rexCapacity\<close>.\<close>

record REXState =
  total_rent :: Asset
  total_unlent :: Asset
  total_lent :: Asset
  total_lendable :: Asset

text \<open>ms per block, blocks per second, blocks per day, ms per day.\<close>

definition mspb :: real where "mspb = 200"
definition bps :: real where "bps = 2"
definition bpd :: real where "bpd = bps * 60 * 60 * 24"
definition mspd :: real where "mspd = mspb * bpd"

text \<open>
  \<open>Math.pow\<close> where its result is finite: a zero exponent gives 1, a negative base with an
  integral exponent is an integer power, otherwise the real power.  (A zero base with a
  negative exponent and a negative base with a fractional exponent give \<open>Infinity\<close> and
  \<open>NaN\<close> in JavaScript and are outside the model.)
\<close>

definition Math_pow :: "real \<Rightarrow> real \<Rightarrow> real" where
  "Math_pow x y =
     (if y = 0 then 1
      else if x < 0 \<and> of_int \<lfloor>y\<rfloor> = y then x powi \<lfloor>y\<rfloor>
      else x powr y)"

text \<open>The amount of resources shifted away from REX/Staking into PowerUp.\<close>

definition resourcesShiftedREXTarget :: real where
  "resourcesShiftedREXTarget = 10 ^ 13"

definition resourcesShifted :: "PowerUpState option \<Rightarrow> real" where
  "resourcesShifted st =
     (case st of None \<Rightarrow> 0
      | Some s \<Rightarrow> real_of_int (weight_ratio (cpu s)) / resourcesShiftedREXTarget)"

text \<open>Milliseconds per day available in PowerUp (factoring in shift).\<close>

definition mspdAvailable :: "real \<Rightarrow> real" where
  "mspdAvailable rs = mspd * (1 - rs / 100)"

subsection \<open>powerupPrice2\<close>

text \<open>
  The value of the local variable \<open>adjusted_utilization\<close> of \<open>powerupPrice2\<close> after the
  decay step (lines 128 to 137); \<open>date_now\<close> is \<open>Date.now()\<close> in ms.
\<close>

definition adjusted_utilization2 :: "int \<Rightarrow> PowerUpStateResource \<Rightarrow> real" where
  "adjusted_utilization2 date_now c =
     (let adjusted = real_of_int (adjusted_utilization c);
          util = real_of_int (utilization c)
      in if util < adjusted then
           (let now = real_of_int \<lfloor>real_of_int date_now / 1000\<rfloor>;
                diff = adjusted - util;
                delta = real_of_int
                  \<lfloor>diff * exp (- (now - real_of_int (utilization_timestamp c))
                                  / real_of_int (decay_secs c))\<rfloor>;
                delta = min (max delta 0) diff
            in util + delta)
         else adjusted)"

text \<open>The two local functions of \<open>powerupPrice2\<close>, with the state values they close over.\<close>

definition price_integral_delta ::
  "real \<Rightarrow> real \<Rightarrow> real \<Rightarrow> real \<Rightarrow> real \<Rightarrow> real \<Rightarrow> real" where
  "price_integral_delta minp maxp ex w start_utilization end_utilization =
     (let coefficient = (maxp - minp) / ex;
          start_u = start_utilization / w;
          end_u = end_utilization / w
      in minp * end_u - minp * start_u
         + coefficient * Math_pow end_u ex - coefficient * Math_pow start_u ex)"

definition price_function :: "real \<Rightarrow> real \<Rightarrow> real \<Rightarrow> real \<Rightarrow> real \<Rightarrow> real" where
  "price_function minp maxp ex w u =
     (let new_exponent = ex - 1
      in if new_exponent \<le> 0 then maxp
         else minp + (maxp - minp) * Math_pow (u / w) new_exponent)"

text \<open>The fee before it is turned into an asset (the variable \<open>fee\<close> at line 181).\<close>

definition fee2 :: "int \<Rightarrow> real \<Rightarrow> PowerUpStateResource \<Rightarrow> real \<Rightarrow> real" where
  "fee2 date_now msToRent c rs =
     (let adjusted = adjusted_utilization2 date_now c;
          ex = exponent c;
          maxp = asset_value (max_price c);
          minp = asset_value (min_price c);
          util = real_of_int (utilization c);
          w = real_of_int (weight c);
          percentToRent = msToRent / mspdAvailable rs;
          utilization_increase = w * percentToRent;
          end_utilization = util + utilization_increase;
          (fee, start_utilization) =
            (if util < adjusted
             then (price_function minp maxp ex w adjusted
                     * min utilization_increase (adjusted - util) / w,
                   adjusted)
             else (0, util))
      in if start_utilization < end_utilization
         then fee + price_integral_delta minp maxp ex w start_utilization end_utilization
         else fee)"

definition powerupPrice2 :: "int \<Rightarrow> real \<Rightarrow> PowerUpState option \<Rightarrow> real \<Rightarrow> Asset" where
  "powerupPrice2 date_now msToRent st rs =
     (case st of
        None \<Rightarrow> Asset_fromUnits 0 4 ''EOS''
      | Some s \<Rightarrow>
          if msToRent \<noteq> 0 \<and> rs \<noteq> 0
          then Asset_fromUnits \<lceil>fee2 date_now msToRent (cpu s) rs * 10000\<rceil> 4 ''EOS''
          else Asset_fromUnits 0 4 ''EOS'')"

subsection \<open>powerupPrice\<close>

text \<open>
  PowerUp system utilization before the rental executes: the variable \<open>utilizationBefore\<close>
  of \<open>powerupPrice\<close> after the decay step (lines 214 to 226).
\<close>

definition utilizationBefore :: "int \<Rightarrow> PowerUpStateResource \<Rightarrow> real" where
  "utilizationBefore date_now c =
     (let util = real_of_int (utilization c);
          adjusted = real_of_int (adjusted_utilization c);
          w = real_of_int (weight c)
      in if util < adjusted then
           (let utilizationDiff = adjusted - util;
                now = real_of_int date_now / 1000;
                then_secs = real_of_int (utilization_timestamp c);
                decay = real_of_int (decay_secs c);
                utilizationDelta = utilizationDiff * exp (- (now - then_secs) / decay);
                utilizationDelta = min (max utilizationDelta 0) utilizationDiff
            in (util + utilizationDelta) / w)
         else max util adjusted / w)"

text \<open>The estimated price before rounding (the variable \<open>price\<close> at line 232).\<close>

definition price1 :: "int \<Rightarrow> real \<Rightarrow> PowerUpStateResource \<Rightarrow> real \<Rightarrow> real" where
  "price1 date_now msToRent c rs =
     (let ex = exponent c;
          minp = real_of_int (units (min_price c));
          maxp = real_of_int (units (max_price c));
          coefficient = (maxp - minp) / ex;
          percentToRent = msToRent / mspdAvailable rs;
          before = utilizationBefore date_now c;
          utilizationAfter = before + percentToRent
      in minp * (utilizationAfter - before)
         + coefficient * (Math_pow utilizationAfter ex - Math_pow before ex))"

definition powerupPrice :: "int \<Rightarrow> real \<Rightarrow> PowerUpState option \<Rightarrow> real \<Rightarrow> Asset" where
  "powerupPrice date_now msToRent st rs =
     (case st of
        None \<Rightarrow> Asset_fromUnits 0 4 ''EOS''
      | Some s \<Rightarrow>
          if rs \<noteq> 0
          then Asset_fromUnits \<lceil>price1 date_now msToRent (cpu s) rs\<rceil> 4 ''EOS''
          else Asset_fromUnits 0 4 ''EOS'')"

subsection \<open>rexPrice\<close>

text \<open>
  Rounding to the nearest integer, ties to the even one; and the double nearest to a real
  number: 53 significant bits, ties to even.  The exponent is not bounded in the model:
  \<open>binary64\<close> is the result of the IEEE-754 operation when that result is a normal double
  (\<open>normal_double\<close>: no overflow to \<open>Infinity\<close>, no underflow).
\<close>

definition round_half_even :: "real \<Rightarrow> int" where
  "round_half_even x =
     (let f = \<lfloor>x\<rfloor>; d = x - real_of_int f
      in if d < 1 / 2 then f else if 1 / 2 < d then f + 1 else if even f then f else f + 1)"

definition binary64 :: "real \<Rightarrow> real" where
  "binary64 x =
     (if x = 0 then 0
      else (let e = \<lfloor>log 2 \<bar>x\<bar>\<rfloor>; ulp = 2 powi (e - 52)
            in real_of_int (round_half_even (x / ulp)) * ulp))"

definition normal_double :: "real \<Rightarrow> bool" where
  "normal_double x \<longleftrightarrow> 2 powi (- 1022) \<le> \<bar>x\<bar> \<and> \<bar>x\<bar> \<le> 2 powi 1023"

text \<open>The getter \<open>.value\<close> of an asset as the double it returns: units / 10^precision.\<close>

definition asset_value_double :: "Asset \<Rightarrow> real" where
  "asset_value_double a = binary64 (real_of_int (units a) / 10 ^ precision a)"

definition msPerToken :: "real \<Rightarrow> REXState \<Rightarrow> real \<Rightarrow> real" where
  "msPerToken sampledCpuCost s rs =
     (let tokens = 1
      in binary64
           (binary64
              (binary64 (tokens / binary64 (asset_value_double (total_rent s)
                                              / asset_value_double (total_unlent s)))
               * sampledCpuCost)
            * binary64 (rs / 100)))"

definition rexPrice :: "real \<Rightarrow> real \<Rightarrow> REXState option \<Rightarrow> real \<Rightarrow> real" where
  "rexPrice msToRent sampledCpuCost st rs =
     (case st of
        None \<Rightarrow> 0
      | Some s \<Rightarrow>
          if msToRent \<noteq> 0 \<and> sampledCpuCost \<noteq> 0 \<and> rs \<noteq> 0
          then (let tokens = 1
                in binary64 (binary64 (tokens / msPerToken sampledCpuCost s rs) * msToRent))
          else 0)"

text \<open>
  Every operation of \<open>msPerToken\<close>, and the division \<open>tokens / msPerToken\<close>, has a normal
  double as its result: none divides by zero, overflows or underflows.
\<close>

definition rex_normal :: "real \<Rightarrow> REXState \<Rightarrow> real \<Rightarrow> bool" where
  "rex_normal sampledCpuCost s rs \<longleftrightarrow>
     (let rent = asset_value_double (total_rent s);
          unlent = asset_value_double (total_unlent s);
          ratio = binary64 (rent / unlent);
          perRatio = binary64 (1 / ratio);
          withCost = binary64 (perRatio * sampledCpuCost);
          shift = binary64 (rs / 100)
      in normal_double (real_of_int (units (total_rent s)) / 10 ^ precision (total_rent s)) \<and>
         normal_double (real_of_int (units (total_unlent s)) / 10 ^ precision (total_unlent s)) \<and>
         normal_double (rent / unlent) \<and> normal_double (1 / ratio) \<and>
         normal_double (perRatio * sampledCpuCost) \<and> normal_double (rs / 100) \<and>
         normal_double (withCost * shift) \<and>
         normal_double (1 / msPerToken sampledCpuCost s rs))"

text \<open>A REX pool with 3.0000 EOS of rent and 7.0000 EOS unlent.\<close>

definition rex_example :: REXState where
  "rex_example =
     \<lparr>total_rent = \<lparr>units = 30000, precision = 4, symbol_name = ''EOS''\<rparr>,
      total_unlent = \<lparr>units = 70000, precision = 4, symbol_name = ''EOS''\<rparr>,
      total_lent = \<lparr>units = 30000, precision = 4, symbol_name = ''EOS''\<rparr>,
      total_lendable = \<lparr>units = 100000, precision = 4, symbol_name = ''EOS''\<rparr>\<rparr>"

text \<open>
  The pool states a chain with the standard system contract publishes: a positive weight
  and decay time, a utilization and an adjusted utilization between 0 and the weight, a
  positive exponent, and price bounds \<open>0 \<le> min_price \<le> max_price\<close> of one symbol.
\<close>

definition valid_resource :: "PowerUpStateResource \<Rightarrow> bool" where
  "valid_resource c \<longleftrightarrow>
     0 < weight c \<and> 0 \<le> utilization c \<and> utilization c \<le> weight c \<and>
     adjusted_utilization c \<le> weight c \<and> 0 < exponent c \<and> 0 < decay_secs c \<and>
     0 \<le> units (min_price c) \<and> units (min_price c) \<le> units (max_price c) \<and>
     precision (min_price c) = precision (max_price c)"

text \<open>
  The fee of \<open>powerupPrice2\<close> as a function of the utilization increase alone, used to
  reason about \<open>fee2\<close>; the lemma \<open>fee2_unfold\<close> below relates the two.
\<close>

definition fee2_of :: "real \<Rightarrow> real \<Rightarrow> real \<Rightarrow> real \<Rightarrow> real \<Rightarrow> real \<Rightarrow> real \<Rightarrow> real" where
  "fee2_of minp maxp ex w util adjusted inc =
     (if util < adjusted
      then price_function minp maxp ex w adjusted * min inc (adjusted - util) / w
           + (if adjusted < util + inc
              then price_integral_delta minp maxp ex w adjusted (util + inc) else 0)
      else (if util < util + inc
            then price_integral_delta minp maxp ex w util (util + inc) else 0))"

subsection \<open>Example pool states\<close>

text \<open>
  The pool of the concrete scenario: weight 1000000, price bounds of 100 and 10000 units
  (0.0100 and 1.0000 EOS), exponent 2, no utilization; a decay time of one day.
\<close>

definition scenario_cpu :: PowerUpStateResource where
  "scenario_cpu =
     \<lparr>weight = 1000000, weight_ratio = 0, exponent = 2, decay_secs = 86400,
      min_price = \<lparr>units = 100, precision = 4, symbol_name = ''EOS''\<rparr>,
      max_price = \<lparr>units = 10000, precision = 4, symbol_name = ''EOS''\<rparr>,
      utilization = 0, adjusted_utilization = 0, utilization_timestamp = 0\<rparr>"




section \<open>Properties of the token key\<close>

lemma toLowerCase_ascii_char_dash: "toLowerCase_ascii_char c = CHR ''-'' \<longleftrightarrow> c = CHR ''-''"
proof (cases "65 \<le> (of_char c :: nat) \<and> (of_char c :: nat) \<le> 90")
  case True
  then have shifted: "(of_char (char_of (of_char c + 32 :: nat)) :: nat) = of_char c + 32"
    by (simp add: of_char_of)
  have "char_of (of_char c + 32 :: nat) \<noteq> CHR ''-''"
  proof
    assume "char_of (of_char c + 32 :: nat) = CHR ''-''"
    then have "(of_char (char_of (of_char c + 32 :: nat)) :: nat) = of_char (CHR ''-'')"
      by simp
    with shifted True show False
      by simp
  qed
  moreover have "c \<noteq> CHR ''-''"
    using True by auto
  ultimately show ?thesis
    using True by (simp add: toLowerCase_ascii_char_def Let_def)
next
  case False
  then show ?thesis
    by (auto simp add: toLowerCase_ascii_char_def Let_def)
qed

lemma toLowerCase_ascii_dash_free:
  "CHR ''-'' \<in> set (toLowerCase_ascii s) \<longleftrightarrow> CHR ''-'' \<in> set s"
proof -
  have "(\<exists>c\<in>set s. toLowerCase_ascii_char c = CHR ''-'') \<longleftrightarrow> (\<exists>c\<in>set s. c = CHR ''-'')"
    by (simp only: toLowerCase_ascii_char_dash)
  then show ?thesis
    unfolding toLowerCase_ascii_def set_map image_iff by metis
qed

lemma toLowerCase_ascii_lowers_around_dash: "lowers_around_dash toLowerCase_ascii"
  unfolding lowers_around_dash_def
proof (intro conjI allI)
  fix a b
  show "toLowerCase_ascii (a @ ''-'' @ b) = toLowerCase_ascii a @ ''-'' @ toLowerCase_ascii b"
    by (simp add: toLowerCase_ascii_def toLowerCase_ascii_char_dash)
next
  fix a
  show "CHR ''-'' \<in> set (toLowerCase_ascii a) \<longleftrightarrow> CHR ''-'' \<in> set a"
    by (rule toLowerCase_ascii_dash_free)
qed

lemma split_at_first_dash:
  "CHR ''-'' \<notin> set a \<Longrightarrow> CHR ''-'' \<notin> set b \<Longrightarrow> a @ CHR ''-'' # r = b @ CHR ''-'' # s
     \<Longrightarrow> a = b \<and> r = s"
proof (induction a arbitrary: b)
  case Nil
  then show ?case by (cases b) auto
next
  case (Cons x a)
  then show ?case by (cases b) auto
qed

lemma makeTokenKey_unfold:
  assumes "lowers_around_dash toLowerCase"
  shows "makeTokenKey toLowerCase t =
     toLowerCase (chainId t) @ CHR ''-'' # toLowerCase (contract t) @ CHR ''-'' # toLowerCase (name t)"
proof -
  have around: "toLowerCase (a @ ''-'' @ b) = toLowerCase a @ ''-'' @ toLowerCase b" for a b
    using assms by (simp add: lowers_around_dash_def)
  have "makeTokenKey toLowerCase t = toLowerCase (chainId t @ ''-'' @ (contract t @ ''-'' @ name t))"
    by (simp add: makeTokenKey_def)
  also have "\<dots> = toLowerCase (chainId t) @ ''-'' @ toLowerCase (contract t @ ''-'' @ name t)"
    by (rule around)
  also have "toLowerCase (contract t @ ''-'' @ name t)
      = toLowerCase (contract t) @ ''-'' @ toLowerCase (name t)"
    by (rule around)
  finally show ?thesis
    by simp
qed

lemma makeTokenKey_separates:
  assumes lower: "lowers_around_dash toLowerCase"
    and "CHR ''-'' \<notin> set (chainId t1)" "CHR ''-'' \<notin> set (contract t1)"
    and "CHR ''-'' \<notin> set (chainId t2)" "CHR ''-'' \<notin> set (contract t2)"
    and eq: "makeTokenKey toLowerCase t1 = makeTokenKey toLowerCase t2"
  shows "same_up_to_case toLowerCase t1 t2"
proof -
  have free: "CHR ''-'' \<notin> set (toLowerCase a)" if "CHR ''-'' \<notin> set a" for a
    using lower that by (simp add: lowers_around_dash_def)
  have 1: "toLowerCase (chainId t1) = toLowerCase (chainId t2) \<and>
        toLowerCase (contract t1) @ CHR ''-'' # toLowerCase (name t1)
          = toLowerCase (contract t2) @ CHR ''-'' # toLowerCase (name t2)"
    using eq assms(2,4) unfolding makeTokenKey_unfold [OF lower]
    by (intro split_at_first_dash) (simp_all add: free)
  then have "toLowerCase (contract t1) = toLowerCase (contract t2) \<and>
        toLowerCase (name t1) = toLowerCase (name t2)"
    using assms(3,5) by (intro split_at_first_dash) (simp_all add: free)
  with 1 show ?thesis
    by (simp add: same_up_to_case_def)
qed

text \<open>
  C10: \<open>makeTokenKey\<close> is case-insensitive: two tuples that agree up to letter case get the
  same key.  It is injective up to letter case on the tuples it is given, whose \<open>chainId\<close>
  (hexadecimal digits) and \<open>contract\<close> (an account name) contain no \<open>-\<close>: two such tuples
  get the same key exactly when they agree up to letter case, so tuples that differ in more
  than case get distinct keys.  The \<open>name\<close> may be any text.
\<close>

theorem makeTokenKey_injective_up_to_case:
  assumes "lowers_around_dash toLowerCase"
  shows "(same_up_to_case toLowerCase t1 t2
            \<longrightarrow> makeTokenKey toLowerCase t1 = makeTokenKey toLowerCase t2) \<and>
         (CHR ''-'' \<notin> set (chainId t1) \<and> CHR ''-'' \<notin> set (contract t1) \<and>
          CHR ''-'' \<notin> set (chainId t2) \<and> CHR ''-'' \<notin> set (contract t2)
            \<longrightarrow> (makeTokenKey toLowerCase t1 = makeTokenKey toLowerCase t2
                  \<longleftrightarrow> same_up_to_case toLowerCase t1 t2))"
proof -
  have same: "makeTokenKey toLowerCase t1 = makeTokenKey toLowerCase t2"
    if "same_up_to_case toLowerCase t1 t2"
    using that by (simp add: same_up_to_case_def makeTokenKey_unfold [OF assms])
  then show ?thesis
    using makeTokenKey_separates [OF assms, of t1 t2] by blast
qed

theorem makeTokenKey_injective_up_to_case_witness:
  "makeTokenKey toLowerCase_ascii
       \<lparr>chainId = ''aca376f2'', contract = ''eosio.token'', name = ''EOS''\<rparr>
     = makeTokenKey toLowerCase_ascii
         \<lparr>chainId = ''ACA376F2'', contract = ''eosio.token'', name = ''eos''\<rparr>
   \<and> makeTokenKey toLowerCase_ascii
       \<lparr>chainId = ''aca376f2'', contract = ''eosio.token'', name = ''EOS''\<rparr>
     \<noteq> makeTokenKey toLowerCase_ascii
         \<lparr>chainId = ''aca376f2'', contract = ''tethertether'', name = ''USDT''\<rparr>"
proof -
  let ?a = "\<lparr>chainId = ''aca376f2'', contract = ''eosio.token'', name = ''EOS''\<rparr>"
  let ?b = "\<lparr>chainId = ''ACA376F2'', contract = ''eosio.token'', name = ''eos''\<rparr>"
  let ?c = "\<lparr>chainId = ''aca376f2'', contract = ''tethertether'', name = ''USDT''\<rparr>"
  note key = makeTokenKey_injective_up_to_case [OF toLowerCase_ascii_lowers_around_dash]
  have ab: "same_up_to_case toLowerCase_ascii ?a ?b"
    by code_simp
  have ac: "\<not> same_up_to_case toLowerCase_ascii ?a ?c"
    by code_simp
  have dash: "CHR ''-'' \<notin> set (chainId ?a) \<and> CHR ''-'' \<notin> set (contract ?a) \<and>
      CHR ''-'' \<notin> set (chainId ?c) \<and> CHR ''-'' \<notin> set (contract ?c)"
    by simp
  show ?thesis
    using key [of ?a ?b] key [of ?a ?c] ab ac dash
    by blast
qed


section \<open>Properties of the account cache\<close>

lemma stale_cached_response: "stale (cached_response r now) \<longleftrightarrow> now - updated r > maxAge"
  by (simp add: cached_response_def Let_def)

lemma account_cached_response:
  "account (cached_response r now) = Some (patch_account (row_account r))"
  by (simp add: cached_response_def Let_def AccountObject_from_def)

lemma fetches_append: "fetches (xs @ ys) = fetches xs + fetches ys"
  by (induction xs rule: fetches.induct) simp_all

lemma callbacks_append: "callbacks (xs @ ys) = callbacks xs @ callbacks ys"
  by (induction xs rule: callbacks.induct) simp_all

lemma loadAccount_cached:
  assumes "db (accountKey nm chain) = Some r"
  shows "\<exists>rest. trace (loadAccount nm chain refresh env db)
           = Callback (cached_response r (now_load env)) # rest"
  using assms by (simp add: loadAccount_def Let_def split: option.split)

lemma loadAccount_fetch_iff:
  "0 < fetches (trace (loadAccount nm chain refresh env db)) \<longleftrightarrow>
     (case db (accountKey nm chain) of None \<Rightarrow> True
      | Some r \<Rightarrow> now_load env - updated r > maxAge) \<or> refresh"
  by (simp add: loadAccount_def Let_def fetches_append stale_cached_response
      split: option.split)

lemma loadAccount_fetch_success:
  assumes "(case db (accountKey nm chain) of None \<Rightarrow> True
            | Some r \<Rightarrow> now_load env - updated r > maxAge) \<or> refresh"
    and "get_account env chain nm = Some fresh"
  shows "db_after (loadAccount nm chain refresh env db) (accountKey (account_name fresh) chain)
           = Some \<lparr>row_account = fresh, updated = now_store env\<rparr>"
    and "callbacks (trace (loadAccount nm chain refresh env db))
           = (case db (accountKey nm chain) of None \<Rightarrow> []
              | Some r \<Rightarrow> [cached_response r (now_load env)])
             @ [\<lparr>account = Some fresh, stale = False, error = None\<rparr>]"
  using assms
  by (auto simp add: loadAccount_def Let_def callbacks_append stale_cached_response
      storeAccount_def stored_row_def objectify_def split: option.split)

lemma loadAccount_fresh_hit:
  assumes "db (accountKey nm chain) = Some r" "now_load env - updated r \<le> maxAge" "\<not> refresh"
  shows "loadAccount nm chain refresh env db
    = \<lparr>trace = [Callback (cached_response r (now_load env))], db_after = db, settled = Resolved\<rparr>"
  using assms by (simp add: loadAccount_def Let_def stale_cached_response)

text \<open>
  C2: (1) when the store holds a row for the key, the first thing \<open>loadAccount\<close> does
  that an observer sees is the callback with the account of that row and its staleness,
  so it comes before the network request and its result; (2) a network request is sent
  exactly when the row is stale, or \<open>refresh\<close> is set, or there is no row; (3) when that
  request succeeds, the fresh account is written to the store under its key (the looked-up
  key when the chain returns the account that was asked for, replacing the old row) and
  the callback is invoked once more, after the cached delivery if there was one, with the
  fresh account and \<open>stale = false\<close>; (4) a call that finds a row of age at most \<open>maxAge\<close>
  and has \<open>refresh = false\<close> sends no network request and leaves the store as it is.
  The cached account is delivered as \<open>loadAccount\<close> rebuilds it from the row (lines 114
  to 122).
\<close>

theorem loadAccount_cache_then_fetch:
  "(\<forall>r. db (accountKey nm chain) = Some r \<longrightarrow>
      (\<exists>rest. trace (loadAccount nm chain refresh env db)
         = Callback \<lparr>account = Some (patch_account (row_account r)),
                     stale = (now_load env - updated r > maxAge), error = None\<rparr> # rest))
   \<and> (0 < fetches (trace (loadAccount nm chain refresh env db)) \<longleftrightarrow>
        (case db (accountKey nm chain) of None \<Rightarrow> True
         | Some r \<Rightarrow> now_load env - updated r > maxAge) \<or> refresh)
   \<and> (\<forall>fresh.
        ((case db (accountKey nm chain) of None \<Rightarrow> True
          | Some r \<Rightarrow> now_load env - updated r > maxAge) \<or> refresh) \<and>
        get_account env chain nm = Some fresh \<longrightarrow>
          db_after (loadAccount nm chain refresh env db) (accountKey (account_name fresh) chain)
            = Some \<lparr>row_account = fresh, updated = now_store env\<rparr> \<and>
          (account_name fresh = nm \<longrightarrow>
             db_after (loadAccount nm chain refresh env db) (accountKey nm chain)
               = Some \<lparr>row_account = fresh, updated = now_store env\<rparr>) \<and>
          callbacks (trace (loadAccount nm chain refresh env db))
            = (case db (accountKey nm chain) of None \<Rightarrow> []
               | Some r \<Rightarrow> [cached_response r (now_load env)])
              @ [\<lparr>account = Some fresh, stale = False, error = None\<rparr>])
   \<and> (\<forall>r. db (accountKey nm chain) = Some r \<and> now_load env - updated r \<le> maxAge \<and>
        \<not> refresh \<longrightarrow>
          fetches (trace (loadAccount nm chain refresh env db)) = 0 \<and>
          db_after (loadAccount nm chain refresh env db) = db)"
proof (intro conjI allI impI)
  fix r assume "db (accountKey nm chain) = Some r"
  then show "\<exists>rest. trace (loadAccount nm chain refresh env db)
         = Callback \<lparr>account = Some (patch_account (row_account r)),
                     stale = (now_load env - updated r > maxAge), error = None\<rparr> # rest"
    using loadAccount_cached [of db nm chain r refresh env]
    by (simp add: cached_response_def Let_def AccountObject_from_def)
next
  show "0 < fetches (trace (loadAccount nm chain refresh env db)) \<longleftrightarrow>
        (case db (accountKey nm chain) of None \<Rightarrow> True
         | Some r \<Rightarrow> now_load env - updated r > maxAge) \<or> refresh"
    by (rule loadAccount_fetch_iff)
next
  fix fresh
  assume h: "((case db (accountKey nm chain) of None \<Rightarrow> True
          | Some r \<Rightarrow> now_load env - updated r > maxAge) \<or> refresh) \<and>
        get_account env chain nm = Some fresh"
  then show stored: "db_after (loadAccount nm chain refresh env db)
        (accountKey (account_name fresh) chain)
      = Some \<lparr>row_account = fresh, updated = now_store env\<rparr>"
    by (simp add: loadAccount_fetch_success(1))
  show "callbacks (trace (loadAccount nm chain refresh env db))
            = (case db (accountKey nm chain) of None \<Rightarrow> []
               | Some r \<Rightarrow> [cached_response r (now_load env)])
              @ [\<lparr>account = Some fresh, stale = False, error = None\<rparr>]"
    using h by (simp add: loadAccount_fetch_success(2))
  assume "account_name fresh = nm"
  with stored show "db_after (loadAccount nm chain refresh env db) (accountKey nm chain)
               = Some \<lparr>row_account = fresh, updated = now_store env\<rparr>"
    by simp
next
  fix r
  assume h: "db (accountKey nm chain) = Some r \<and> now_load env - updated r \<le> maxAge \<and> \<not> refresh"
  then have "loadAccount nm chain refresh env db
    = \<lparr>trace = [Callback (cached_response r (now_load env))], db_after = db, settled = Resolved\<rparr>"
    by (simp add: loadAccount_fresh_hit)
  then show "fetches (trace (loadAccount nm chain refresh env db)) = 0"
    and "db_after (loadAccount nm chain refresh env db) = db"
    by simp_all
qed


theorem loadAccount_cache_then_fetch_witness:
  "(\<exists>rest. trace (loadAccount ''teamgreymass'' ''aca376f2'' False
        \<lparr>now_load = 61000, now_store = 61500,
         get_account = (\<lambda>c n. Some \<lparr>account_name = n, voter = None, account_rest = ''new''\<rparr>)\<rparr>
        (Map.empty(''aca376f2-teamgreymass'' \<mapsto>
           \<lparr>row_account = \<lparr>account_name = ''teamgreymass'', voter = None, account_rest = ''old''\<rparr>,
            updated = 0\<rparr>)))
      = Callback \<lparr>account = Some \<lparr>account_name = ''teamgreymass'', voter = None, account_rest = ''old''\<rparr>,
                  stale = True, error = None\<rparr> # rest)
   \<and> 0 < fetches (trace (loadAccount ''teamgreymass'' ''aca376f2'' False
        \<lparr>now_load = 61000, now_store = 61500,
         get_account = (\<lambda>c n. Some \<lparr>account_name = n, voter = None, account_rest = ''new''\<rparr>)\<rparr>
        (Map.empty(''aca376f2-teamgreymass'' \<mapsto>
           \<lparr>row_account = \<lparr>account_name = ''teamgreymass'', voter = None, account_rest = ''old''\<rparr>,
            updated = 0\<rparr>))))
   \<and> db_after (loadAccount ''teamgreymass'' ''aca376f2'' False
        \<lparr>now_load = 61000, now_store = 61500,
         get_account = (\<lambda>c n. Some \<lparr>account_name = n, voter = None, account_rest = ''new''\<rparr>)\<rparr>
        (Map.empty(''aca376f2-teamgreymass'' \<mapsto>
           \<lparr>row_account = \<lparr>account_name = ''teamgreymass'', voter = None, account_rest = ''old''\<rparr>,
            updated = 0\<rparr>))) ''aca376f2-teamgreymass''
      = Some \<lparr>row_account = \<lparr>account_name = ''teamgreymass'', voter = None, account_rest = ''new''\<rparr>,
              updated = 61500\<rparr>
   \<and> fetches (trace (loadAccount ''teamgreymass'' ''aca376f2'' False
        \<lparr>now_load = 30000, now_store = 30500,
         get_account = (\<lambda>c n. Some \<lparr>account_name = n, voter = None, account_rest = ''new''\<rparr>)\<rparr>
        (Map.empty(''aca376f2-teamgreymass'' \<mapsto>
           \<lparr>row_account = \<lparr>account_name = ''teamgreymass'', voter = None, account_rest = ''old''\<rparr>,
            updated = 0\<rparr>)))) = 0"
proof -
  let ?old = "\<lparr>account_name = ''teamgreymass'', voter = None, account_rest = ''old''\<rparr>"
  let ?db = "Map.empty(''aca376f2-teamgreymass'' \<mapsto> \<lparr>row_account = ?old, updated = 0\<rparr>)"
  let ?net = "\<lambda>(c::string) n. Some \<lparr>account_name = n, voter = None, account_rest = ''new''\<rparr>"
  let ?late = "\<lparr>now_load = 61000, now_store = 61500, get_account = ?net\<rparr>"
  let ?soon = "\<lparr>now_load = 30000, now_store = 30500, get_account = ?net\<rparr>"
  have key: "accountKey ''teamgreymass'' ''aca376f2'' = ''aca376f2-teamgreymass''"
    by (simp add: accountKey_def)
  have row: "?db (accountKey ''teamgreymass'' ''aca376f2'') = Some \<lparr>row_account = ?old, updated = 0\<rparr>"
    by (simp add: key)
  have late: "now_load ?late - updated \<lparr>row_account = ?old, updated = 0\<rparr> > maxAge"
    by (simp add: maxAge_def)
  have soon: "now_load ?soon - updated \<lparr>row_account = ?old, updated = 0\<rparr> \<le> maxAge"
    by (simp add: maxAge_def)
  have patch: "patch_account ?old = ?old"
    by (simp add: patch_account_def)
  show ?thesis
    using loadAccount_cache_then_fetch [of ?db "''teamgreymass''" "''aca376f2''" False ?late]
      loadAccount_cache_then_fetch [of ?db "''teamgreymass''" "''aca376f2''" False ?soon]
      row late soon patch
    by (simp add: key)
qed

text \<open>
  C5: for a row found in the store, the \<open>stale\<close> flag that \<open>loadAccount\<close> passes to the
  callback with the cached account is true exactly when the age of the row,
  \<open>Date.now() - updated\<close>, is strictly greater than \<open>maxAge\<close>, and \<open>maxAge\<close> is 60000 ms.
\<close>

theorem loadAccount_stale_flag:
  assumes "db (accountKey nm chain) = Some r"
  shows "maxAge = 60000 \<and>
    (\<exists>response rest. callbacks (trace (loadAccount nm chain refresh env db)) = response # rest \<and>
       account response = Some (patch_account (row_account r)) \<and>
       (stale response \<longleftrightarrow> now_load env - updated r > 60000))"
proof -
  obtain rest where "trace (loadAccount nm chain refresh env db)
      = Callback (cached_response r (now_load env)) # rest"
    using loadAccount_cached [of db nm chain r refresh env] assms by blast
  then have "callbacks (trace (loadAccount nm chain refresh env db))
      = cached_response r (now_load env) # callbacks rest"
    by simp
  moreover have "maxAge = 60000"
    by (simp add: maxAge_def)
  ultimately show ?thesis
    using stale_cached_response [of r "now_load env"] account_cached_response [of r "now_load env"]
    by simp
qed

theorem loadAccount_stale_flag_witness:
  "stale (hd (callbacks (trace (loadAccount ''teamgreymass'' ''aca376f2'' False
        \<lparr>now_load = 60001, now_store = 60500, get_account = api_down\<rparr>
        (Map.empty(''aca376f2-teamgreymass'' \<mapsto>
           \<lparr>row_account = \<lparr>account_name = ''teamgreymass'', voter = None, account_rest = ''old''\<rparr>,
            updated = 0\<rparr>))))))
   \<and> \<not> stale (hd (callbacks (trace (loadAccount ''teamgreymass'' ''aca376f2'' False
        \<lparr>now_load = 60000, now_store = 60500, get_account = api_down\<rparr>
        (Map.empty(''aca376f2-teamgreymass'' \<mapsto>
           \<lparr>row_account = \<lparr>account_name = ''teamgreymass'', voter = None, account_rest = ''old''\<rparr>,
            updated = 0\<rparr>))))))"
proof -
  let ?row = "\<lparr>row_account = \<lparr>account_name = ''teamgreymass'', voter = None, account_rest = ''old''\<rparr>,
            updated = 0\<rparr>"
  let ?db = "Map.empty(''aca376f2-teamgreymass'' \<mapsto> ?row)"
  let ?net = api_down
  have row: "?db (accountKey ''teamgreymass'' ''aca376f2'') = Some ?row"
    by (simp add: accountKey_def)
  show ?thesis
    using loadAccount_stale_flag [of ?db "''teamgreymass''" "''aca376f2''" ?row False
          "\<lparr>now_load = 60001, now_store = 60500, get_account = ?net\<rparr>"]
      loadAccount_stale_flag [of ?db "''teamgreymass''" "''aca376f2''" ?row False
          "\<lparr>now_load = 60000, now_store = 60500, get_account = ?net\<rparr>"]
      row
    by auto
qed

lemma patch_account_id_iff:
  "patch_account acc = acc \<longleftrightarrow>
     (case voter acc of None \<Rightarrow> True
      | Some vi \<Rightarrow> truthy_str (last_vote_weight vi) \<and> truthy_str (proxied_vote_weight vi))"
proof (cases "voter acc")
  case None
  then show ?thesis by (simp add: patch_account_def)
next
  case (Some vi)
  have "patch_voter_info vi = vi \<longleftrightarrow>
      truthy_str (last_vote_weight vi) \<and> truthy_str (proxied_vote_weight vi)"
    by (cases vi) (auto simp add: patch_voter_info_def Let_def truthy_str_def split: option.splits)
  moreover have "acc\<lparr>voter := Some (patch_voter_info vi)\<rparr> = acc \<longleftrightarrow> patch_voter_info vi = vi"
    using Some by (cases acc) auto
  ultimately show ?thesis
    using Some by (simp add: patch_account_def)
qed

text \<open>
  C8: for every account object and chain id, after \<open>storeAccount\<close> the first callback of
  \<open>loadAccount\<close> for the same name and chain carries an account equal to the one that was
  stored (next to the \<open>stale\<close> flag of C5): the vote-weight defaults of \<open>loadAccount\<close> do not
  touch a row that \<open>storeAccount\<close> wrote.
\<close>

theorem storeAccount_then_loadAccount:
  assumes "typed_account acc"
  shows "\<exists>rest. callbacks (trace (loadAccount (account_name acc) chain refresh env
                                   (storeAccount acc chain t db)))
      = \<lparr>account = Some acc, stale = (now_load env - t > maxAge), error = None\<rparr> # rest"
proof -
  have same: "patch_account acc = acc"
    using assms by (simp add: patch_account_id_iff typed_account_def)
  have "storeAccount acc chain t db (accountKey (account_name acc) chain)
      = Some \<lparr>row_account = acc, updated = t\<rparr>"
    by (simp add: storeAccount_def stored_row_def objectify_def)
  then obtain rest where "trace (loadAccount (account_name acc) chain refresh env
                                (storeAccount acc chain t db))
      = Callback (cached_response \<lparr>row_account = acc, updated = t\<rparr> (now_load env)) # rest"
    using loadAccount_cached by blast
  then have "callbacks (trace (loadAccount (account_name acc) chain refresh env
                                (storeAccount acc chain t db)))
      = \<lparr>account = Some (patch_account acc), stale = (now_load env - t > maxAge), error = None\<rparr>
        # callbacks rest"
    by (simp add: cached_response_def Let_def AccountObject_from_def)
  then show ?thesis
    unfolding same by blast
qed

theorem storeAccount_then_loadAccount_witness:
  "\<exists>rest. callbacks (trace (loadAccount ''teamgreymass'' ''aca376f2'' False
      \<lparr>now_load = 1000, now_store = 1000, get_account = api_down\<rparr>
      (storeAccount
         \<lparr>account_name = ''teamgreymass'',
          voter = Some \<lparr>last_vote_weight = Some ''1234.5'', proxied_vote_weight = Some ''0'',
                        voter_rest = ''flags''\<rparr>,
          account_rest = ''limits''\<rparr>
         ''aca376f2'' 0 Map.empty)))
   = \<lparr>account = Some
         \<lparr>account_name = ''teamgreymass'',
          voter = Some \<lparr>last_vote_weight = Some ''1234.5'', proxied_vote_weight = Some ''0'',
                        voter_rest = ''flags''\<rparr>,
          account_rest = ''limits''\<rparr>,
       stale = False, error = None\<rparr> # rest"
proof -
  let ?acc = "\<lparr>account_name = ''teamgreymass'',
          voter = Some \<lparr>last_vote_weight = Some ''1234.5'', proxied_vote_weight = Some ''0'',
                        voter_rest = ''flags''\<rparr>,
          account_rest = ''limits''\<rparr>"
  let ?env = "\<lparr>now_load = 1000, now_store = 1000, get_account = api_down\<rparr>"
  have typed: "typed_account ?acc"
    by (simp add: typed_account_def truthy_str_def)
  have fresh: "\<not> (now_load ?env - 0 > maxAge)"
    by (simp add: maxAge_def)
  have "\<exists>rest. callbacks (trace (loadAccount (account_name ?acc) ''aca376f2'' False ?env
                                (storeAccount ?acc ''aca376f2'' 0 Map.empty)))
      = \<lparr>account = Some ?acc, stale = (now_load ?env - 0 > maxAge), error = None\<rparr> # rest"
    using typed by (rule storeAccount_then_loadAccount)
  then show ?thesis
    using fresh by simp
qed


section \<open>Properties of the pricing functions\<close>

subsection \<open>Auxiliary facts\<close>

lemma Math_pow_nonneg: "0 \<le> x \<Longrightarrow> 0 < y \<Longrightarrow> Math_pow x y = x powr y"
  by (simp add: Math_pow_def)

lemma Math_pow_mono: "0 \<le> x \<Longrightarrow> x \<le> z \<Longrightarrow> 0 < y \<Longrightarrow> Math_pow x y \<le> Math_pow z y"
  by (simp add: Math_pow_nonneg powr_mono2)

lemma Math_pow_ge_0: "0 \<le> x \<Longrightarrow> 0 < y \<Longrightarrow> 0 \<le> Math_pow x y"
  by (simp add: Math_pow_nonneg)

lemma mspd_value: "mspd = 34560000"
  by (simp add: mspd_def mspb_def bpd_def bps_def)

lemma mspdAvailable_pos: "rs < 100 \<Longrightarrow> 0 < mspdAvailable rs"
  by (simp add: mspdAvailable_def mspd_value)



lemma utilizationBefore_lower:
  "0 < weight c \<Longrightarrow> real_of_int (utilization c) / real_of_int (weight c) \<le> utilizationBefore date_now c"
  by (simp add: utilizationBefore_def Let_def divide_right_mono)

lemma utilizationBefore_noop:
  "adjusted_utilization c \<le> utilization c \<Longrightarrow>
     utilizationBefore date_now c = real_of_int (utilization c) / real_of_int (weight c)"
  by (simp add: utilizationBefore_def Let_def max_def)

lemma Math_pow_square: "0 \<le> x \<Longrightarrow> Math_pow x 2 = x\<^sup>2"
  by (cases "x = 0") (simp_all add: Math_pow_def)

lemma fee2_unfold:
  "fee2 date_now msToRent c rs =
     fee2_of (asset_value (min_price c)) (asset_value (max_price c)) (exponent c)
       (real_of_int (weight c)) (real_of_int (utilization c)) (adjusted_utilization2 date_now c)
       (real_of_int (weight c) * (msToRent / mspdAvailable rs))"
  by (simp add: fee2_def fee2_of_def Let_def)

lemma price_integral_delta_same: "price_integral_delta minp maxp ex w s s = 0"
  by (simp add: price_integral_delta_def Let_def)

lemma price_integral_delta_mono:
  assumes "0 \<le> minp" "minp \<le> maxp" "0 < ex" "0 < w" "0 \<le> s" "s \<le> t1" "t1 \<le> t2"
  shows "price_integral_delta minp maxp ex w s t1 \<le> price_integral_delta minp maxp ex w s t2"
proof -
  have u: "0 \<le> t1 / w" "t1 / w \<le> t2 / w"
    using assms by (simp_all add: divide_right_mono)
  have coef: "0 \<le> (maxp - minp) / ex"
    using assms by simp
  have "minp * (t1 / w) \<le> minp * (t2 / w)"
    using assms u by (intro mult_left_mono) simp_all
  moreover have "(maxp - minp) / ex * Math_pow (t1 / w) ex \<le> (maxp - minp) / ex * Math_pow (t2 / w) ex"
    using coef u assms(3) by (intro mult_left_mono Math_pow_mono) simp_all
  ultimately show ?thesis
    by (simp add: price_integral_delta_def Let_def)
qed

lemma price_integral_delta_nonneg:
  assumes "0 \<le> minp" "minp \<le> maxp" "0 < ex" "0 < w" "0 \<le> s" "s \<le> t"
  shows "0 \<le> price_integral_delta minp maxp ex w s t"
  using price_integral_delta_mono [OF assms(1-5) order_refl assms(6)]
  by (simp add: price_integral_delta_same)

lemma price_function_nonneg:
  assumes "0 \<le> minp" "minp \<le> maxp" "0 < w" "0 \<le> u"
  shows "0 \<le> price_function minp maxp ex w u"
proof (cases "ex - 1 \<le> 0")
  case True
  then show ?thesis
    using assms by (simp add: price_function_def Let_def)
next
  case False
  then have "0 \<le> Math_pow (u / w) (ex - 1)"
    using assms by (intro Math_pow_ge_0) simp_all
  then have "0 \<le> (maxp - minp) * Math_pow (u / w) (ex - 1)"
    using assms by simp
  then show ?thesis
    using False assms by (simp add: price_function_def Let_def)
qed

lemma fee2_of_mono:
  assumes "0 \<le> minp" "minp \<le> maxp" "0 < ex" "0 < w" "0 \<le> util"
    and adj: "util < adjusted \<longrightarrow> util \<le> adjusted"
    and "inc1 \<le> inc2"
  shows "fee2_of minp maxp ex w util adjusted inc1 \<le> fee2_of minp maxp ex w util adjusted inc2"
proof -
  have tail: "(if s < util + inc1 then price_integral_delta minp maxp ex w s (util + inc1) else 0)
      \<le> (if s < util + inc2 then price_integral_delta minp maxp ex w s (util + inc2) else 0)"
    if "0 \<le> s" for s
  proof (cases "s < util + inc1")
    case True
    then show ?thesis
      using assms that price_integral_delta_mono [of minp maxp ex w s "util + inc1" "util + inc2"]
      by simp
  next
    case False
    then show ?thesis
      using assms that price_integral_delta_nonneg [of minp maxp ex w s "util + inc2"]
      by simp
  qed
  show ?thesis
  proof (cases "util < adjusted")
    case True
    then have "0 \<le> adjusted" using assms by simp
    then have pf: "0 \<le> price_function minp maxp ex w adjusted"
      using assms by (intro price_function_nonneg) simp_all
    have "min inc1 (adjusted - util) \<le> min inc2 (adjusted - util)"
      using assms by simp
    then have "price_function minp maxp ex w adjusted * min inc1 (adjusted - util)
        \<le> price_function minp maxp ex w adjusted * min inc2 (adjusted - util)"
      using pf by (intro mult_left_mono)
    then have "price_function minp maxp ex w adjusted * min inc1 (adjusted - util) / w
        \<le> price_function minp maxp ex w adjusted * min inc2 (adjusted - util) / w"
      using assms(4) by (simp add: divide_right_mono)
    then show ?thesis
      using True tail [of adjusted] \<open>0 \<le> adjusted\<close>
      by (simp add: fee2_of_def add_mono)
  next
    case False
    then show ?thesis
      using tail [of util] assms by (simp add: fee2_of_def)
  qed
qed

lemma fee2_of_zero: "fee2_of minp maxp ex w util adjusted 0 = 0"
  by (simp add: fee2_of_def)

lemma fee2_mono:
  assumes "valid_resource c" "rs < 100" "m1 \<le> m2"
  shows "fee2 date_now m1 c rs \<le> fee2 date_now m2 c rs"
proof -
  have w: "0 < real_of_int (weight c)"
    using assms by (simp add: valid_resource_def)
  have "m1 / mspdAvailable rs \<le> m2 / mspdAvailable rs"
    using assms mspdAvailable_pos [of rs] by (simp add: divide_right_mono)
  then have inc: "real_of_int (weight c) * (m1 / mspdAvailable rs)
      \<le> real_of_int (weight c) * (m2 / mspdAvailable rs)"
    using w by (intro mult_left_mono) simp_all
  have minp: "0 \<le> asset_value (min_price c)"
    using assms by (simp add: valid_resource_def asset_value_def)
  have maxp: "asset_value (min_price c) \<le> asset_value (max_price c)"
    using assms by (simp add: valid_resource_def asset_value_def divide_right_mono)
  have adj: "real_of_int (utilization c) < adjusted_utilization2 date_now c
      \<longrightarrow> real_of_int (utilization c) \<le> adjusted_utilization2 date_now c"
    by simp
  show ?thesis
    unfolding fee2_unfold
    using minp maxp w inc assms(1)
    by (intro fee2_of_mono adj) (simp_all add: valid_resource_def)
qed

lemma fee2_at_zero: "fee2 date_now 0 c rs = 0"
  by (simp add: fee2_unfold fee2_of_zero)

lemma price1_mono:
  assumes "valid_resource c" "rs < 100" "0 \<le> m1" "m1 \<le> m2"
  shows "price1 date_now m1 c rs \<le> price1 date_now m2 c rs"
proof -
  let ?b = "utilizationBefore date_now c"
  let ?p1 = "m1 / mspdAvailable rs" and ?p2 = "m2 / mspdAvailable rs"
  have av: "0 < mspdAvailable rs"
    using assms by (simp add: mspdAvailable_pos)
  have p: "0 \<le> ?p1" "?p1 \<le> ?p2"
    using assms av by (simp_all add: divide_right_mono)
  have "0 \<le> real_of_int (utilization c) / real_of_int (weight c)"
    using assms by (simp add: valid_resource_def)
  moreover have "real_of_int (utilization c) / real_of_int (weight c) \<le> ?b"
    using assms by (intro utilizationBefore_lower) (simp add: valid_resource_def)
  ultimately have b: "0 \<le> ?b"
    by (rule order_trans)
  have minp: "0 \<le> real_of_int (units (min_price c))"
    using assms by (simp add: valid_resource_def)
  have coef: "0 \<le> (real_of_int (units (max_price c)) - real_of_int (units (min_price c))) / exponent c"
    using assms by (simp add: valid_resource_def)
  have "Math_pow (?b + ?p1) (exponent c) \<le> Math_pow (?b + ?p2) (exponent c)"
    using b p assms by (intro Math_pow_mono) (simp_all add: valid_resource_def)
  then have 2: "(real_of_int (units (max_price c)) - real_of_int (units (min_price c))) / exponent c
        * (Math_pow (?b + ?p1) (exponent c) - Math_pow ?b (exponent c))
     \<le> (real_of_int (units (max_price c)) - real_of_int (units (min_price c))) / exponent c
        * (Math_pow (?b + ?p2) (exponent c) - Math_pow ?b (exponent c))"
    using coef by (intro mult_left_mono) simp_all
  have 1: "real_of_int (units (min_price c)) * (?b + ?p1 - ?b)
     \<le> real_of_int (units (min_price c)) * (?b + ?p2 - ?b)"
    using minp p by (intro mult_left_mono) simp_all
  show ?thesis
    unfolding price1_def Let_def using 1 2 by (rule add_mono)
qed

subsection \<open>Monotonicity in the requested duration\<close>

text \<open>
  C1: for every PowerUp state that a chain publishes (\<open>valid_resource\<close>), every shift ratio
  below 100 and every current time, the price is monotonically non-decreasing in the
  requested duration, for \<open>powerupPrice\<close> and for \<open>powerupPrice2\<close>: when \<open>0 \<le> m1 \<le> m2\<close> and the
  price of \<open>m2\<close> is returned (it fits \<open>Int64\<close>), the price of \<open>m1\<close> is returned as well, is not
  negative and is at most the price of \<open>m2\<close>.
\<close>

theorem powerupPrice_monotone:
  assumes "valid_resource (cpu s)" "rs < 100" "0 \<le> m1" "m1 \<le> m2"
    and "fits_Int64 (units (powerupPrice date_now m2 (Some s) rs))"
    and "fits_Int64 (units (powerupPrice2 date_now m2 (Some s) rs))"
  shows "units (powerupPrice date_now m1 (Some s) rs) \<le> units (powerupPrice date_now m2 (Some s) rs)
    \<and> units (powerupPrice2 date_now m1 (Some s) rs) \<le> units (powerupPrice2 date_now m2 (Some s) rs)
    \<and> 0 \<le> units (powerupPrice date_now m1 (Some s) rs)
    \<and> 0 \<le> units (powerupPrice2 date_now m1 (Some s) rs)
    \<and> fits_Int64 (units (powerupPrice date_now m1 (Some s) rs))
    \<and> fits_Int64 (units (powerupPrice2 date_now m1 (Some s) rs))"
proof -
  have le1: "units (powerupPrice date_now m1 (Some s) rs)
      \<le> units (powerupPrice date_now m2 (Some s) rs)"
    using price1_mono [OF assms(1-4), of date_now]
    by (simp add: powerupPrice_def Asset_fromUnits_def ceiling_mono)
  have "price1 date_now 0 (cpu s) rs \<le> price1 date_now m1 (cpu s) rs"
    using assms by (intro price1_mono) simp_all
  moreover have "price1 date_now 0 (cpu s) rs = 0"
    by (simp add: price1_def Let_def)
  ultimately have "0 \<le> \<lceil>price1 date_now m1 (cpu s) rs\<rceil>"
    by (simp add: ceiling_mono [of 0, simplified])
  then have pos1: "0 \<le> units (powerupPrice date_now m1 (Some s) rs)"
    by (simp add: powerupPrice_def Asset_fromUnits_def)
  have mono: "\<lceil>fee2 date_now m1 (cpu s) rs * 10000\<rceil> \<le> \<lceil>fee2 date_now m2 (cpu s) rs * 10000\<rceil>"
    using fee2_mono [OF assms(1,2,4), of date_now] by (intro ceiling_mono) simp
  have nonneg: "0 \<le> \<lceil>fee2 date_now m (cpu s) rs * 10000\<rceil>" if "0 \<le> m" for m
  proof -
    have "0 \<le> fee2 date_now m (cpu s) rs"
      using fee2_mono [OF assms(1,2) that, of date_now] by (simp add: fee2_at_zero)
    then show ?thesis
      by (simp add: ceiling_mono [of 0, simplified])
  qed
  have "0 \<le> m2"
    using assms by simp
  then have le2: "units (powerupPrice2 date_now m1 (Some s) rs)
      \<le> units (powerupPrice2 date_now m2 (Some s) rs)"
    using mono nonneg [of m2] assms(3,4)
    by (auto simp add: powerupPrice2_def Asset_fromUnits_def)
  have pos2: "0 \<le> units (powerupPrice2 date_now m1 (Some s) rs)"
    using nonneg [OF assms(3)] by (simp add: powerupPrice2_def Asset_fromUnits_def)
  show ?thesis
    using le1 le2 pos1 pos2 assms(5,6) by (simp add: fits_Int64_def)
qed

theorem powerupPrice_monotone_witness:
  "units (powerupPrice 1700000000000 17280000 (Some \<lparr>cpu = scenario_cpu\<rparr>) 50)
     \<le> units (powerupPrice 1700000000000 34560000 (Some \<lparr>cpu = scenario_cpu\<rparr>) 50) \<and>
   units (powerupPrice2 1700000000000 17280000 (Some \<lparr>cpu = scenario_cpu\<rparr>) 50)
     \<le> units (powerupPrice2 1700000000000 34560000 (Some \<lparr>cpu = scenario_cpu\<rparr>) 50)"
proof -
  have valid: "valid_resource (cpu \<lparr>cpu = scenario_cpu\<rparr>)"
    by (simp add: valid_resource_def scenario_cpu_def)
  have long: "units (powerupPrice 1700000000000 34560000 (Some \<lparr>cpu = scenario_cpu\<rparr>) 50) = 20000"
    "units (powerupPrice2 1700000000000 34560000 (Some \<lparr>cpu = scenario_cpu\<rparr>) 50) = 20000"
    by (simp_all add: powerupPrice_def powerupPrice2_def price1_def fee2_def utilizationBefore_def
        adjusted_utilization2_def price_integral_delta_def mspdAvailable_def mspd_value
        scenario_cpu_def asset_value_def Asset_fromUnits_def Let_def Math_pow_square)
  have fits: "fits_Int64 (units (powerupPrice 1700000000000 34560000 (Some \<lparr>cpu = scenario_cpu\<rparr>) 50))"
    "fits_Int64 (units (powerupPrice2 1700000000000 34560000 (Some \<lparr>cpu = scenario_cpu\<rparr>) 50))"
    unfolding long by (simp_all add: fits_Int64_def)
  show ?thesis
    using powerupPrice_monotone
        [of "\<lparr>cpu = scenario_cpu\<rparr>" 50 17280000 34560000 1700000000000] valid fits
    by simp
qed

subsection \<open>The two PowerUp computations compared\<close>




subsection \<open>The concrete scenario\<close>

lemma scenario_price1:
  assumes "rs < 100"
  shows "price1 date_now 1 scenario_cpu rs
     = 100 * (1 / mspdAvailable rs) + 4950 * (1 / mspdAvailable rs)\<^sup>2"
proof -
  have "0 < mspdAvailable rs"
    using assms by (simp add: mspdAvailable_def mspd_value)
  then have "0 \<le> 1 / mspdAvailable rs" by simp
  then show ?thesis
    by (simp add: price1_def utilizationBefore_def scenario_cpu_def Let_def Math_pow_square
        Math_pow_def)
qed

lemma scenario_fee2:
  assumes "rs < 100"
  shows "fee2 date_now 1 scenario_cpu rs * 10000
     = 100 * (1 / mspdAvailable rs) + 4950 * (1 / mspdAvailable rs)\<^sup>2"
proof -
  have pos: "0 < mspdAvailable rs"
    using assms by (simp add: mspdAvailable_def mspd_value)
  then have "0 \<le> 1 / mspdAvailable rs" by simp
  then have sq: "Math_pow (1 / mspdAvailable rs) 2 = (1 / mspdAvailable rs)\<^sup>2"
    by (rule Math_pow_square)
  have z: "Math_pow 0 2 = 0"
    by (simp add: Math_pow_def)
  have "fee2 date_now 1 scenario_cpu rs
     = price_integral_delta (100 / 10000) (10000 / 10000) 2 1000000 0 (1000000 * (1 / mspdAvailable rs))"
    using pos by (simp add: fee2_def adjusted_utilization2_def scenario_cpu_def Let_def asset_value_def)
  also have "\<dots> * 10000 = 100 * (1 / mspdAvailable rs) + 4950 * (1 / mspdAvailable rs)\<^sup>2"
    using sq z by (simp add: price_integral_delta_def Let_def field_simps)
  finally show ?thesis by simp
qed

lemma scenario_bounds:
  assumes "rs \<le> 99"
  shows "0 < 100 * (1 / mspdAvailable rs) + 4950 * (1 / mspdAvailable rs)\<^sup>2"
    and "100 * (1 / mspdAvailable rs) + 4950 * (1 / mspdAvailable rs)\<^sup>2 \<le> 1"
proof -
  have low: "345600 \<le> mspdAvailable rs"
    using assms by (simp add: mspdAvailable_def mspd_value)
  then have pos: "0 < 1 / mspdAvailable rs" by simp
  have up: "1 / mspdAvailable rs \<le> 1 / 345600"
    using low by (simp add: frac_le)
  show "0 < 100 * (1 / mspdAvailable rs) + 4950 * (1 / mspdAvailable rs)\<^sup>2"
    using pos by (simp add: add_pos_nonneg)
  have "(1 / mspdAvailable rs)\<^sup>2 \<le> (1 / 345600)\<^sup>2"
    using pos up by (intro power_mono) simp_all
  then show "100 * (1 / mspdAvailable rs) + 4950 * (1 / mspdAvailable rs)\<^sup>2 \<le> 1"
    using up by (simp add: power2_eq_square)
qed

text \<open>
  C4, as stated: for the scenario pool, a shift ratio of 0 and a request of 1 ms, the price
  is strictly between 0 and \<open>max_price\<close>.  With a shift ratio of 0 both computations return
  the zero asset, since their guard treats the number 0 as a missing value.
\<close>

theorem scenario_price_zero:
  "units (powerupPrice 1700000000000 1 (Some \<lparr>cpu = scenario_cpu\<rparr>) 0) = 0 \<and>
   units (powerupPrice2 1700000000000 1 (Some \<lparr>cpu = scenario_cpu\<rparr>) 0) = 0"
  by (simp add: powerupPrice_def powerupPrice2_def Asset_fromUnits_def)

text \<open>
  C4, amended: for the scenario pool and a request of 1 ms, both computations return zero
  when the shift ratio is 0; for every shift ratio that is not 0 and at most 99 both return
  exactly one unit (0.0001), which is strictly greater than 0 and strictly less than
  \<open>max_price\<close> (10000 units).
\<close>

theorem scenario_price:
  "powerupPrice date_now 1 (Some \<lparr>cpu = scenario_cpu\<rparr>) 0 = Asset_fromUnits 0 4 ''EOS'' \<and>
   powerupPrice2 date_now 1 (Some \<lparr>cpu = scenario_cpu\<rparr>) 0 = Asset_fromUnits 0 4 ''EOS'' \<and>
   (rs \<noteq> 0 \<and> rs \<le> 99 \<longrightarrow>
      units (powerupPrice date_now 1 (Some \<lparr>cpu = scenario_cpu\<rparr>) rs) = 1 \<and>
      units (powerupPrice2 date_now 1 (Some \<lparr>cpu = scenario_cpu\<rparr>) rs) = 1 \<and>
      1 < units (max_price scenario_cpu))"
proof -
  have "\<lceil>100 * (1 / mspdAvailable rs) + 4950 * (1 / mspdAvailable rs)\<^sup>2\<rceil> = 1" if "rs \<le> 99"
    using scenario_bounds [OF that] by (simp add: ceiling_eq_iff)
  moreover have "rs < 100" if "rs \<le> 99"
    using that by simp
  ultimately show ?thesis
    by (simp add: powerupPrice_def powerupPrice2_def Asset_fromUnits_def scenario_price1
        scenario_fee2) (simp add: scenario_cpu_def)
qed

theorem scenario_price_witness:
  "units (powerupPrice 1700000000000 1 (Some \<lparr>cpu = scenario_cpu\<rparr>) 1) = 1 \<and>
   units (powerupPrice2 1700000000000 1 (Some \<lparr>cpu = scenario_cpu\<rparr>) 1) = 1"
  using scenario_price [of 1700000000000 1] by simp

subsection \<open>Rounding up to the smallest unit\<close>





subsection \<open>The decay step\<close>









subsection \<open>REX\<close>

lemma round_half_even_near: "\<bar>real_of_int (round_half_even y) - y\<bar> \<le> 1 / 2"
proof -
  have "real_of_int \<lfloor>y\<rfloor> \<le> y" "y < real_of_int \<lfloor>y\<rfloor> + 1"
    by linarith+
  then show ?thesis
    by (auto simp add: round_half_even_def Let_def)
qed

lemma round_half_even_unique:
  assumes "\<bar>y - real_of_int n\<bar> < 1 / 2"
  shows "round_half_even y = n"
proof -
  have "\<bar>real_of_int (round_half_even y) - real_of_int n\<bar> < 1"
    using round_half_even_near [of y] assms by linarith
  then have "\<bar>round_half_even y - n\<bar> < 1"
    by (metis of_int_diff of_int_abs of_int_less_1_iff)
  then show ?thesis
    by simp
qed

lemma floor_log2:
  assumes "2 powi e \<le> \<bar>x\<bar>" "\<bar>x\<bar> < 2 powi (e + 1)"
  shows "\<lfloor>log 2 \<bar>x\<bar>\<rfloor> = e"
proof -
  have "(0::real) < 2 powi e"
    by simp
  then have pos: "0 < \<bar>x\<bar>"
    using assms(1) by linarith
  have "(2::real) powr real_of_int e = 2 powi e"
    by (rule powr_real_of_int') simp_all
  moreover have "(2::real) powr real_of_int (e + 1) = 2 powi (e + 1)"
    by (rule powr_real_of_int') simp_all
  ultimately have "(2::real) powr real_of_int e \<le> \<bar>x\<bar> \<and> \<bar>x\<bar> < 2 powr real_of_int (e + 1)"
    using assms by simp
  then show ?thesis
    using pos floor_log_eq_powr_iff [of "\<bar>x\<bar>" 2 e] by simp
qed

lemma binary64_nearest:
  assumes "2 powi e \<le> \<bar>x\<bar>" "\<bar>x\<bar> < 2 powi (e + 1)"
    and "\<bar>x / 2 powi (e - 52) - real_of_int n\<bar> < 1 / 2"
  shows "binary64 x = real_of_int n * 2 powi (e - 52)"
proof -
  have "(0::real) < 2 powi e"
    by simp
  then have "0 < \<bar>x\<bar>"
    using assms(1) by linarith
  then have "x \<noteq> 0"
    by simp
  then show ?thesis
    using floor_log2 [OF assms(1,2)] round_half_even_unique [OF assms(3)]
    by (simp add: binary64_def Let_def)
qed

lemma binary64_error:
  assumes "x \<noteq> 0"
  shows "\<bar>binary64 x - x\<bar> \<le> \<bar>x\<bar> / 2 ^ 53"
proof -
  define e where "e = \<lfloor>log 2 \<bar>x\<bar>\<rfloor>"
  define ulp :: real where "ulp = 2 powi (e - 52)"
  have ulp: "0 < ulp"
    by (simp add: ulp_def)
  have pos: "0 < \<bar>x\<bar>"
    using assms by simp
  have "(2::real) powr real_of_int e \<le> \<bar>x\<bar>"
    using pos by (simp add: e_def powr_le_iff)
  then have low: "2 powi e \<le> \<bar>x\<bar>"
    by (simp add: powr_real_of_int')
  have b: "binary64 x = real_of_int (round_half_even (x / ulp)) * ulp"
    using assms by (simp add: binary64_def Let_def e_def ulp_def)
  have "binary64 x - x = (real_of_int (round_half_even (x / ulp)) - x / ulp) * ulp"
    using ulp by (simp add: b field_simps)
  then have "\<bar>binary64 x - x\<bar> = \<bar>real_of_int (round_half_even (x / ulp)) - x / ulp\<bar> * ulp"
    using ulp by (simp add: abs_mult)
  also have "\<dots> \<le> 1 / 2 * ulp"
    using round_half_even_near [of "x / ulp"] ulp by (intro mult_right_mono) simp_all
  also have "1 / 2 * ulp = 2 powi e / 2 ^ 53"
    by (simp add: ulp_def power_int_diff)
  also have "\<dots> \<le> \<bar>x\<bar> / 2 ^ 53"
    using low by (simp add: divide_right_mono)
  finally show ?thesis .
qed

lemma binary64_3: "binary64 3 = 3"
  using binary64_nearest [of 1 3 6755399441055744] by (simp add: power_int_minus)

lemma binary64_7: "binary64 7 = 7"
  using binary64_nearest [of 2 7 7881299347898368] by (simp add: power_int_minus)

lemma binary64_half: "binary64 (1 / 2) = 1 / 2"
  using binary64_nearest [of "- 1" "1 / 2" 4503599627370496] by (simp add: power_int_minus)

lemma step_ratio: "binary64 (3 / 7) = 7720456504063707 / 18014398509481984"
  using binary64_nearest [of "- 2" "3 / 7" 7720456504063707] by (simp add: power_int_minus)

lemma step_perRatio:
  "binary64 (1 / (7720456504063707 / 18014398509481984)) = 5254199565265579 / 2251799813685248"
  using binary64_nearest [of 1 "1 / (7720456504063707 / 18014398509481984)" 5254199565265579]
  by (simp add: power_int_minus)

lemma step_withCost:
  "binary64 (5254199565265579 / 2251799813685248 * (1 / 2)) = 5254199565265579 / 4503599627370496"
  using binary64_nearest [of 0 "5254199565265579 / 2251799813685248 * (1 / 2)" 5254199565265579]
  by (simp add: power_int_minus)

lemma step_msPerToken:
  "binary64 (5254199565265579 / 4503599627370496 * (1 / 2)) = 5254199565265579 / 9007199254740992"
  using binary64_nearest [of "- 1" "5254199565265579 / 4503599627370496 * (1 / 2)" 5254199565265579]
  by (simp add: power_int_minus)

lemma step_perMs:
  "binary64 (1 / (5254199565265579 / 9007199254740992)) = 7720456504063707 / 4503599627370496"
  using binary64_nearest [of 0 "1 / (5254199565265579 / 9007199254740992)" 7720456504063707]
  by (simp add: power_int_minus)

lemma step_price35: "binary64 (7720456504063707 / 4503599627370496 * 35) = 60"
  using binary64_nearest [of 5 "7720456504063707 / 4503599627370496 * 35" 8444249301319680]
  by (simp add: power_int_minus)

lemma step_quotient35:
  "binary64 (35 / (5254199565265579 / 9007199254740992)) = 8444249301319679 / 140737488355328"
  using binary64_nearest [of 5 "35 / (5254199565265579 / 9007199254740992)" 8444249301319679]
  by (simp add: power_int_minus)

lemma step_price3:
  "binary64 (7720456504063707 / 4503599627370496 * 3) = 1447585594511945 / 281474976710656"
  using binary64_nearest [of 2 "7720456504063707 / 4503599627370496 * 3" 5790342378047780]
  by (simp add: power_int_minus)

lemma step_price27:
  "binary64 (7720456504063707 / 4503599627370496 * 27) = 6514135175303753 / 140737488355328"
  using binary64_nearest [of 5 "7720456504063707 / 4503599627370496 * 27" 6514135175303753]
  by (simp add: power_int_minus)

lemma rex_example_values:
  "asset_value_double (total_rent rex_example) = 3"
  "asset_value_double (total_unlent rex_example) = 7"
  by (simp_all add: asset_value_double_def rex_example_def binary64_3 binary64_7)

lemma binary64_shift50: "binary64 (50 / 100) = 1 / 2"
  using binary64_half by simp

lemma rex_example_msPerToken:
  "msPerToken (1 / 2) rex_example 50 = 5254199565265579 / 9007199254740992"
  unfolding msPerToken_def Let_def rex_example_values step_ratio step_perRatio step_withCost
    binary64_shift50 step_msPerToken ..

lemma rex_example_price:
  "rexPrice 35 (1 / 2) (Some rex_example) 50 = 60"
  "rexPrice 3 (1 / 2) (Some rex_example) 50 = 1447585594511945 / 281474976710656"
  "rexPrice 27 (1 / 2) (Some rex_example) 50 = 6514135175303753 / 140737488355328"
  by (simp_all add: rexPrice_def rex_example_msPerToken step_perMs step_price35 step_price3
      step_price27 del: divide_divide_eq_left divide_divide_eq_right times_divide_eq_left
      times_divide_eq_right one_divide_eq_0_iff)

text \<open>
  C9, as stated: the REX price equals the duration divided by \<open>msPerToken\<close>, and scales
  linearly in the duration.  For a pool with 3 EOS of rent and 7 EOS unlent, a sampled cost
  of 0.5 and a shift ratio of 50, the price of 35 ms is 60, while 35 divided by
  \<open>msPerToken\<close> is not 60, neither exactly nor as a double; and the price of 27 ms is not 9
  times the price of 3 ms.
\<close>

theorem rexPrice_not_quotient:
  "rexPrice 35 (1 / 2) (Some rex_example) 50 = 60 \<and>
   35 / msPerToken (1 / 2) rex_example 50 \<noteq> 60 \<and>
   binary64 (35 / msPerToken (1 / 2) rex_example 50) \<noteq> 60 \<and>
   rexPrice 27 (1 / 2) (Some rex_example) 50 \<noteq> 9 * rexPrice 3 (1 / 2) (Some rex_example) 50"
proof -
  have "35 / msPerToken (1 / 2) rex_example 50 \<noteq> 60"
    unfolding rex_example_msPerToken by simp
  moreover have "binary64 (35 / msPerToken (1 / 2) rex_example 50) \<noteq> 60"
    unfolding rex_example_msPerToken step_quotient35 by simp
  moreover have "rexPrice 27 (1 / 2) (Some rex_example) 50
      \<noteq> 9 * rexPrice 3 (1 / 2) (Some rex_example) 50"
    unfolding rex_example_price by simp
  ultimately show ?thesis
    using rex_example_price(1) by simp
qed

lemma binary64_nonzero:
  assumes "x \<noteq> 0"
  shows "binary64 x \<noteq> 0"
proof
  assume "binary64 x = 0"
  then have "\<bar>x\<bar> \<le> \<bar>x\<bar> / 2 ^ 53"
    using binary64_error [OF assms] by simp
  moreover have "\<bar>x\<bar> / 2 ^ 53 < \<bar>x\<bar>"
    using assms by (simp add: field_simps)
  ultimately show False
    by linarith
qed

lemma binary64_abs_le:
  assumes "x \<noteq> 0"
  shows "\<bar>binary64 x\<bar> \<le> \<bar>x\<bar> * (1 + 1 / 2 ^ 53)"
proof -
  have "\<bar>binary64 x\<bar> \<le> \<bar>x\<bar> + \<bar>binary64 x - x\<bar>"
    by linarith
  then show ?thesis
    using binary64_error [OF assms] by (simp add: algebra_simps)
qed

lemma two_roundings:
  assumes "a \<noteq> 0" "m \<noteq> 0"
  shows "\<bar>binary64 (binary64 a * m) - a * m\<bar> \<le> \<bar>a * m\<bar> / 2 ^ 51"
proof -
  define eps :: real where "eps = 1 / 2 ^ 53"
  have eps: "0 < eps" "eps \<le> 1"
    by (simp_all add: eps_def)
  let ?c = "binary64 a"
  have c0: "?c \<noteq> 0"
    using assms by (simp add: binary64_nonzero)
  have c: "\<bar>?c - a\<bar> \<le> \<bar>a\<bar> * eps" "\<bar>?c\<bar> \<le> \<bar>a\<bar> * (1 + eps)"
    using binary64_error [OF assms(1)] binary64_abs_le [OF assms(1)] by (simp_all add: eps_def)
  have "\<bar>binary64 (?c * m) - ?c * m\<bar> \<le> \<bar>?c * m\<bar> * eps"
    using binary64_error [of "?c * m"] c0 assms by (simp add: eps_def)
  also have "\<bar>?c * m\<bar> * eps \<le> \<bar>a\<bar> * (1 + eps) * \<bar>m\<bar> * eps"
    using c(2) eps by (simp add: abs_mult mult_right_mono)
  finally have 1: "\<bar>binary64 (?c * m) - ?c * m\<bar> \<le> \<bar>a\<bar> * \<bar>m\<bar> * ((1 + eps) * eps)"
    by (simp add: algebra_simps)
  have "\<bar>?c * m - a * m\<bar> = \<bar>?c - a\<bar> * \<bar>m\<bar>"
    by (simp add: abs_mult left_diff_distrib [symmetric])
  also have "\<dots> \<le> \<bar>a\<bar> * eps * \<bar>m\<bar>"
    using c(1) by (simp add: mult_right_mono)
  finally have 2: "\<bar>?c * m - a * m\<bar> \<le> \<bar>a\<bar> * \<bar>m\<bar> * eps"
    by (simp add: algebra_simps)
  have "\<bar>binary64 (?c * m) - a * m\<bar> \<le> \<bar>binary64 (?c * m) - ?c * m\<bar> + \<bar>?c * m - a * m\<bar>"
    by linarith
  also have "\<dots> \<le> \<bar>a\<bar> * \<bar>m\<bar> * ((1 + eps) * eps) + \<bar>a\<bar> * \<bar>m\<bar> * eps"
    using 1 2 by linarith
  also have "\<dots> = \<bar>a * m\<bar> * ((2 + eps) * eps)"
    by (simp add: abs_mult algebra_simps)
  also have "\<dots> \<le> \<bar>a * m\<bar> * (1 / 2 ^ 51)"
  proof (intro mult_left_mono)
    show "(2 + eps) * eps \<le> 1 / 2 ^ 51"
      by (simp add: eps_def)
  qed simp
  finally show ?thesis
    by simp
qed

lemma normal_double_mid:
  assumes "1 / 1024 \<le> \<bar>x\<bar>" "\<bar>x\<bar> \<le> 1024"
  shows "normal_double x"
proof -
  have "(2::real) powi (- 1022) \<le> 2 powi (- 10)"
    by (rule power_int_increasing) simp_all
  moreover have "(2::real) powi 10 \<le> 2 powi 1023"
    by (rule power_int_increasing) simp_all
  moreover have "(2::real) powi (- 10) = 1 / 1024" "(2::real) powi 10 = 1024"
    by (simp_all add: power_int_minus field_simps)
  ultimately show ?thesis
    using assms by (simp add: normal_double_def)
qed

lemma normal_double_nonzero: "normal_double x \<Longrightarrow> x \<noteq> 0"
proof
  assume "normal_double x" "x = 0"
  then have "(2::real) powi (- 1022) \<le> 0"
    by (simp add: normal_double_def)
  moreover have "(0::real) < 2 powi (- 1022)"
    by simp
  ultimately show False
    by linarith
qed

lemma rex_example_normal: "rex_normal (1 / 2) rex_example 50"
  unfolding rex_normal_def Let_def rex_example_values rex_example_msPerToken step_ratio
    step_perRatio step_withCost binary64_shift50
  by (intro conjI normal_double_mid) (simp_all add: rex_example_def)

text \<open>
  C9, amended: for a non-zero duration, sampled CPU cost and shift ratio, and a REX state
  for which no operation divides by zero, overflows or underflows, the REX price is the
  double product of the duration and the double \<open>1 / msPerToken\<close>, a factor that does not
  depend on the duration, where \<open>msPerToken\<close> is the double that
  \<open>(1 / (totalRent / totalUnlent)) * sampledCpuCost * (shiftedRatio / 100)\<close> evaluates to.
  The price equals the duration divided by \<open>msPerToken\<close> up to a relative error of
  \<open>2^-51\<close>, and it is linear in the duration up to a relative error of \<open>2^-50\<close>.
\<close>

theorem rexPrice_rounded:
  assumes "msToRent \<noteq> 0" "sampledCpuCost \<noteq> 0" "rs \<noteq> 0"
    and "rex_normal sampledCpuCost s rs"
    and "normal_double (binary64 (1 / msPerToken sampledCpuCost s rs) * msToRent)"
  shows "rexPrice msToRent sampledCpuCost (Some s) rs
           = binary64 (binary64 (1 / msPerToken sampledCpuCost s rs) * msToRent) \<and>
         \<bar>rexPrice msToRent sampledCpuCost (Some s) rs - msToRent / msPerToken sampledCpuCost s rs\<bar>
           \<le> \<bar>msToRent / msPerToken sampledCpuCost s rs\<bar> / 2 ^ 51 \<and>
         (\<forall>k. normal_double (binary64 (1 / msPerToken sampledCpuCost s rs) * (k * msToRent)) \<longrightarrow>
            \<bar>rexPrice (k * msToRent) sampledCpuCost (Some s) rs
               - k * rexPrice msToRent sampledCpuCost (Some s) rs\<bar>
              \<le> \<bar>k * msToRent / msPerToken sampledCpuCost s rs\<bar> / 2 ^ 50)"
proof -
  let ?a = "1 / msPerToken sampledCpuCost s rs"
  have "normal_double ?a"
    using assms(4) by (simp add: rex_normal_def Let_def)
  then have a: "?a \<noteq> 0"
    by (rule normal_double_nonzero)
  have price: "rexPrice m sampledCpuCost (Some s) rs = binary64 (binary64 ?a * m)" if "m \<noteq> 0" for m
    using that assms(2,3) by (simp add: rexPrice_def)
  have near: "\<bar>rexPrice m sampledCpuCost (Some s) rs - ?a * m\<bar> \<le> \<bar>?a * m\<bar> / 2 ^ 51" if "m \<noteq> 0" for m
    unfolding price [OF that] using a that by (rule two_roundings)
  have linear: "\<bar>rexPrice (k * msToRent) sampledCpuCost (Some s) rs
               - k * rexPrice msToRent sampledCpuCost (Some s) rs\<bar>
              \<le> \<bar>k * msToRent / msPerToken sampledCpuCost s rs\<bar> / 2 ^ 50" for k
  proof (cases "k = 0")
    case True
    then show ?thesis
      by (simp add: rexPrice_def)
  next
    case False
    let ?P = "\<lambda>m. rexPrice m sampledCpuCost (Some s) rs"
    have 1: "\<bar>?P (k * msToRent) - ?a * (k * msToRent)\<bar> \<le> \<bar>?a * (k * msToRent)\<bar> / 2 ^ 51"
      using False assms(1) by (intro near) simp
    have "\<bar>k * ?P msToRent - k * (?a * msToRent)\<bar> = \<bar>k\<bar> * \<bar>?P msToRent - ?a * msToRent\<bar>"
      by (simp only: right_diff_distrib [symmetric] abs_mult)
    also have "\<dots> \<le> \<bar>k\<bar> * (\<bar>?a * msToRent\<bar> / 2 ^ 51)"
      using near [OF assms(1)] by (intro mult_left_mono) simp_all
    finally have 2: "\<bar>k * ?P msToRent - ?a * (k * msToRent)\<bar> \<le> \<bar>?a * (k * msToRent)\<bar> / 2 ^ 51"
      by (simp add: abs_mult algebra_simps)
    have "\<bar>?P (k * msToRent) - k * ?P msToRent\<bar>
        \<le> \<bar>?P (k * msToRent) - ?a * (k * msToRent)\<bar> + \<bar>k * ?P msToRent - ?a * (k * msToRent)\<bar>"
      by linarith
    also have "\<dots> \<le> \<bar>?a * (k * msToRent)\<bar> / 2 ^ 51 + \<bar>?a * (k * msToRent)\<bar> / 2 ^ 51"
      using 1 2 by linarith
    also have "\<dots> = \<bar>?a * (k * msToRent)\<bar> / 2 ^ 50"
      by simp
    finally show ?thesis
      by simp
  qed
  show ?thesis
    using price [OF assms(1)] near [OF assms(1)] linear by simp
qed

theorem rexPrice_rounded_witness:
  "rexPrice 35 (1 / 2) (Some rex_example) 50 = 60 \<and>
   \<bar>60 - 35 / msPerToken (1 / 2) rex_example 50\<bar>
     \<le> \<bar>35 / msPerToken (1 / 2) rex_example 50\<bar> / 2 ^ 51"
proof -
  have product: "normal_double (binary64 (1 / msPerToken (1 / 2) rex_example 50) * 35)"
    unfolding rex_example_msPerToken step_perMs by (rule normal_double_mid) simp_all
  note rounded = rexPrice_rounded [of 35 "1 / 2" 50 rex_example, OF _ _ _ rex_example_normal product]
  have "\<bar>rexPrice 35 (1 / 2) (Some rex_example) 50 - 35 / msPerToken (1 / 2) rex_example 50\<bar>
     \<le> \<bar>35 / msPerToken (1 / 2) rex_example 50\<bar> / 2 ^ 51"
    by (rule rounded [THEN conjunct2, THEN conjunct1]) simp_all
  then show ?thesis
    unfolding rex_example_price(1) by simp
qed

end
